theory Spec2Isabelle
  imports Complex_Main
begin

section \<open>The BGE-M3 embedding server (model\_server/app.py)\<close>

text \<open>
  A shallow embedding of \<^verbatim>\<open>src/model_server/app.py\<close>. Python exceptions are values
  of a sum type (\<open>Inl\<close> is a raised exception), the module's globals \<^verbatim>\<open>model\<close> and
  \<^verbatim>\<open>device\<close> are a record passed to every function, and the global state of
  \<^verbatim>\<open>np.random\<close> is passed in and returned.

  Numbers: the entries of the vectors are real numbers, so rounding, overflow and the
  cast to float32 are not part of the model. What numpy does when an array is divided by
  zero is part of it: the quotient is \<open>nan\<close> or an infinity, a value and not an
  exception. Log lines are not modelled.
\<close>

subsection \<open>Exceptions\<close>

text \<open>
  \<^verbatim>\<open>HTTPException(status_code, detail)\<close> is FastAPI's; it is a subclass of
  \<^verbatim>\<open>Exception\<close>, as is every other exception the handlers below can catch.
\<close>

datatype exn = HTTPException nat string | ValueError string | RuntimeError string

subsection \<open>Numbers and vectors\<close>

datatype fnum = Num real | PosInf | NegInf | NaN

text \<open>Elementwise \<^verbatim>\<open>array / scalar\<close> of numpy on one entry.\<close>

definition np_div :: "real \<Rightarrow> real \<Rightarrow> fnum" where
  "np_div x d =
     (if d \<noteq> 0 then Num (x / d)
      else if x = 0 then NaN
      else if 0 < x then PosInf else NegInf)"

text \<open>\<^verbatim>\<open>np.linalg.norm\<close> of a one-dimensional array: the Euclidean norm.\<close>

definition l2norm :: "real list \<Rightarrow> real" where
  "l2norm v = sqrt (sum_list (map (\<lambda>x. x * x) v))"

text \<open>
  The global generator of \<^verbatim>\<open>np.random\<close>: the stream of standard normal samples it
  will return. \<^verbatim>\<open>np.random.randn(n)\<close> takes the next \<open>n\<close> of them.
\<close>

type_synonym rng = "nat \<Rightarrow> real"

definition randn :: "nat \<Rightarrow> rng \<Rightarrow> real list \<times> rng" where
  "randn n g = (map g [0..<n], (\<lambda>i. g (i + n)))"

subsection \<open>Server state and the host\<close>

text \<open>
  A loaded model is its \<^verbatim>\<open>encode(texts, batch_size=..., return_dense=True, ...)\<close>
  followed by the conversions of \<^verbatim>\<open>embed_texts_actual\<close> (\<^verbatim>\<open>['dense_vecs']\<close>,
  \<^verbatim>\<open>tolist()\<close>): it returns the dense vectors, or raises.
\<close>

type_synonym encoder = "string list \<Rightarrow> int \<Rightarrow> exn + real list list"

record server =
  model :: "encoder option"
  device :: "string option"

text \<open>
  The host, as the loader sees it: the two availability tests of torch, the query
  \<^verbatim>\<open>torch.cuda.get_device_name(0)\<close>, the constructor
  \<^verbatim>\<open>BGEM3FlagModel(model_name, use_fp16=...)\<close> and the two moves of a model to an
  accelerator. The query and each of the last three may raise.
\<close>

record host =
  cuda_is_available :: bool
  cuda_get_device_name :: "exn + string"
  mps_is_available :: bool
  BGEM3FlagModel :: "string \<Rightarrow> bool \<Rightarrow> exn + encoder"
  model_cuda :: "encoder \<Rightarrow> exn + encoder"
  model_to_mps :: "encoder \<Rightarrow> exn + encoder"

subsection \<open>Device selection and model loading\<close>

text \<open>
  \<^verbatim>\<open>detect_device\<close>. On the cuda branch the log line is the f-string
  \<^verbatim>\<open>f"CUDA available: {torch.cuda.get_device_name(0)}"\<close>: the query is evaluated
  before the function returns, and an exception of the query leaves the function.
\<close>

definition detect_device :: "host \<Rightarrow> exn + string" where
  "detect_device h =
     (if cuda_is_available h then
        (case cuda_get_device_name h of
           Inl e \<Rightarrow> Inl e
         | Inr name \<Rightarrow> Inr ''cuda'')
      else if mps_is_available h then Inr ''mps''
      else Inr ''cpu'')"

text \<open>
  The body of the \<^verbatim>\<open>try\<close> of \<^verbatim>\<open>load_model\<close>. The globals are assigned as the body
  runs, so the state is returned also when the body raises: nothing is assigned when
  \<^verbatim>\<open>detect_device()\<close> raises, \<open>device\<close> is set before the constructor is called,
  \<open>model\<close> before it is moved.
\<close>

definition load_model_body :: "host \<Rightarrow> server \<Rightarrow> exn option \<times> server" where
  "load_model_body h s =
     (case detect_device h of
        Inl e \<Rightarrow> (Some e, s)
      | Inr d \<Rightarrow>
          (let s1 = s\<lparr>device := Some d\<rparr>;
               model_name = ''BAAI/bge-m3'';
               use_fp16 = (d \<noteq> ''cpu'')
           in case BGEM3FlagModel h model_name use_fp16 of
                Inl e \<Rightarrow> (Some e, s1)
              | Inr m \<Rightarrow>
                  (let s2 = s1\<lparr>model := Some m\<rparr>
                   in if d = ''cuda'' then
                        (case model_cuda h m of
                           Inl e \<Rightarrow> (Some e, s2)
                         | Inr m' \<Rightarrow> (None, s2\<lparr>model := Some m'\<rparr>))
                      else if d = ''mps'' then
                        (case model_to_mps h m of
                           Inl e \<Rightarrow> (Some e, s2)
                         | Inr m' \<Rightarrow> (None, s2\<lparr>model := Some m'\<rparr>))
                      else (None, s2))))"

text \<open>
  \<^verbatim>\<open>load_model\<close>: \<^verbatim>\<open>return True\<close> at the end of the body, \<^verbatim>\<open>return False\<close> in
  \<^verbatim>\<open>except Exception\<close>. The result is a sum so that a raise of the function itself
  would be a value \<open>Inl\<close>.
\<close>

definition load_model :: "host \<Rightarrow> server \<Rightarrow> exn + (bool \<times> server)" where
  "load_model h s =
     (case load_model_body h s of
        (None, s') \<Rightarrow> Inr (True, s')
      | (Some e, s') \<Rightarrow> Inr (False, s'))"

subsection \<open>The mock embedder and the real one\<close>

text \<open>
  \<^verbatim>\<open>embed_texts_mock\<close>: one sample of 1024 entries for each text, divided by its norm.
  There is no test of the norm here. \<^verbatim>\<open>batch_size\<close> is not used.
\<close>

fun embed_texts_mock :: "string list \<Rightarrow> int \<Rightarrow> rng \<Rightarrow> fnum list list \<times> rng" where
  "embed_texts_mock [] batch_size g = ([], g)"
| "embed_texts_mock (text # texts) batch_size g =
     (let (embedding, g1) = randn 1024 g;
          embedding' = map (\<lambda>x. np_div x (l2norm embedding)) embedding;
          (embeddings, g2) = embed_texts_mock texts batch_size g1
      in (embedding' # embeddings, g2))"

text \<open>The normalisation of one vector in \<^verbatim>\<open>embed_texts_actual\<close>.\<close>

definition normalize_embedding :: "real list \<Rightarrow> fnum list" where
  "normalize_embedding embedding =
     (let norm = l2norm embedding
      in if norm > 0 then map (\<lambda>x. np_div x norm) embedding
         else map Num embedding)"

text \<open>The body of the \<^verbatim>\<open>try\<close> of \<^verbatim>\<open>embed_texts_actual\<close>.\<close>

definition embed_texts_actual_body ::
  "server \<Rightarrow> string list \<Rightarrow> int \<Rightarrow> rng \<Rightarrow> exn + (fnum list list \<times> rng)" where
  "embed_texts_actual_body s texts batch_size g =
     (case model s of
        None \<Rightarrow> Inr (embed_texts_mock texts batch_size g)
      | Some m \<Rightarrow>
          (case m texts batch_size of
             Inl e \<Rightarrow> Inl e
           | Inr embeddings \<Rightarrow> Inr (map normalize_embedding embeddings, g)))"

text \<open>
  \<^verbatim>\<open>embed_texts_actual\<close>: the body, and in \<^verbatim>\<open>except Exception\<close> the mock embedder on
  the same texts.
\<close>

definition embed_texts_actual ::
  "server \<Rightarrow> string list \<Rightarrow> int \<Rightarrow> rng \<Rightarrow> exn + (fnum list list \<times> rng)" where
  "embed_texts_actual s texts batch_size g =
     (case embed_texts_actual_body s texts batch_size g of
        Inr r \<Rightarrow> Inr r
      | Inl e \<Rightarrow> Inr (embed_texts_mock texts batch_size g))"

subsection \<open>Requests and responses\<close>

text \<open>
  The pydantic models. A field of a JSON body is absent, \<^verbatim>\<open>null\<close> or a value;
  \<^verbatim>\<open>Optional[int] = Field(64, ...)\<close> turns an absent field into 64 and \<^verbatim>\<open>null\<close>
  into \<^verbatim>\<open>None\<close>.
\<close>

record EmbedRequest =
  texts :: "string list"
  batch_size :: "int option"
  normalize :: "bool option"

datatype 'a json_field = Absent | Null | Value 'a

definition field_default :: "'a \<Rightarrow> 'a json_field \<Rightarrow> 'a option" where
  "field_default d f = (case f of Absent \<Rightarrow> Some d | Null \<Rightarrow> None | Value v \<Rightarrow> Some v)"

definition parse_EmbedRequest ::
  "string list \<Rightarrow> int json_field \<Rightarrow> bool json_field \<Rightarrow> EmbedRequest" where
  "parse_EmbedRequest ts b n =
     \<lparr>texts = ts, batch_size = field_default 64 b, normalize = field_default True n\<rparr>"

record embed_model_info =
  info_model_name :: string
  info_device :: "string option"
  info_embedding_dim :: nat
  info_processing_time :: real
  info_text_count :: nat

record EmbedResponse =
  embeddings :: "fnum list list"
  model_info :: embed_model_info

record health_model_info =
  hinfo_model_name :: string
  hinfo_embedding_dim :: nat
  hinfo_device :: string
  hinfo_model_type :: string

record HealthResponse =
  status :: string
  health_device :: string
  model_loaded :: bool
  health_model_info :: health_model_info

text \<open>
  What the handler of \<^verbatim>\<open>/embed\<close> reads from outside the request: the two readings of
  \<^verbatim>\<open>time.time()\<close> and Python's \<^verbatim>\<open>str\<close> of an exception.
\<close>

record runtime =
  time_start :: real
  time_end :: real
  str_of_exn :: "exn \<Rightarrow> string"

subsection \<open>Python's range, slices, \<open>or\<close>\<close>

function range_up :: "int \<Rightarrow> int \<Rightarrow> int \<Rightarrow> int list" where
  "range_up i stop step =
     (if 0 < step \<and> i < stop then i # range_up (i + step) stop step else [])"
  by pat_completeness auto
termination
  by (relation "measure (\<lambda>(i, stop, step). nat (stop - i))") auto

function range_down :: "int \<Rightarrow> int \<Rightarrow> int \<Rightarrow> int list" where
  "range_down i stop step =
     (if step < 0 \<and> stop < i then i # range_down (i + step) stop step else [])"
  by pat_completeness auto
termination
  by (relation "measure (\<lambda>(i, stop, step). nat (i - stop))") auto

text \<open>\<^verbatim>\<open>range(start, stop, step)\<close>, which raises \<^verbatim>\<open>ValueError\<close> when the step is 0.\<close>

definition py_range :: "int \<Rightarrow> int \<Rightarrow> int \<Rightarrow> exn + int list" where
  "py_range start stop step =
     (if step = 0 then Inl (ValueError ''range() arg 3 must not be zero'')
      else if 0 < step then Inr (range_up start stop step)
      else Inr (range_down start stop step))"

text \<open>
  \<^verbatim>\<open>xs[i:j]\<close>: a negative bound counts from the end, and both are clipped to the list.
\<close>

definition slice_bound :: "nat \<Rightarrow> int \<Rightarrow> nat" where
  "slice_bound n i = (if i < 0 then nat (max 0 (i + int n)) else min n (nat i))"

definition py_slice :: "'a list \<Rightarrow> int \<Rightarrow> int \<Rightarrow> 'a list" where
  "py_slice xs i j =
     (let lo = slice_bound (length xs) i; hi = slice_bound (length xs) j
      in drop lo (take hi xs))"

text \<open>\<^verbatim>\<open>b or d\<close> for an optional integer: \<^verbatim>\<open>None\<close> and 0 are false.\<close>

definition int_or :: "int option \<Rightarrow> int \<Rightarrow> int" where
  "int_or b d = (case b of None \<Rightarrow> d | Some v \<Rightarrow> if v = 0 then d else v)"

subsection \<open>The handlers\<close>

definition health_check :: "server \<Rightarrow> exn + HealthResponse" where
  "health_check s =
     (let dev = (case device s of None \<Rightarrow> ''unknown'' | Some d \<Rightarrow> if d = [] then ''unknown'' else d);
          info = \<lparr>hinfo_model_name = ''BAAI/bge-m3'', hinfo_embedding_dim = 1024,
                  hinfo_device = dev, hinfo_model_type = ''BGE-M3''\<rparr>;
          status0 = ''healthy'';
          loaded = (model s \<noteq> None);
          status1 = (if model s = None then ''healthy_mock'' else status0)
      in Inr \<lparr>status = status1, health_device = dev, model_loaded = loaded,
              health_model_info = info\<rparr>)"

text \<open>The loop of \<^verbatim>\<open>embed_texts\<close> over the indices of \<^verbatim>\<open>range\<close>.\<close>

fun embed_batches ::
  "server \<Rightarrow> string list \<Rightarrow> int \<Rightarrow> int list \<Rightarrow> fnum list list \<Rightarrow> rng
     \<Rightarrow> exn + (fnum list list \<times> rng)" where
  "embed_batches s ts bs [] all_embeddings g = Inr (all_embeddings, g)"
| "embed_batches s ts bs (i # is) all_embeddings g =
     (let batch_texts = py_slice ts i (i + bs)
      in case embed_texts_actual s batch_texts bs g of
           Inl e \<Rightarrow> Inl e
         | Inr (batch_embeddings, g') \<Rightarrow>
             embed_batches s ts bs is (all_embeddings @ batch_embeddings) g')"

text \<open>The body of the \<^verbatim>\<open>try\<close> of \<^verbatim>\<open>embed_texts\<close>.\<close>

definition embed_texts_body ::
  "runtime \<Rightarrow> server \<Rightarrow> EmbedRequest \<Rightarrow> rng \<Rightarrow> exn + (EmbedResponse \<times> rng)" where
  "embed_texts_body rt s request g =
     (if texts request = [] then Inl (HTTPException 400 ''No texts provided'')
      else if length (texts request) > 64 then
        Inl (HTTPException 400 ''Too many texts. Maximum allowed: 64'')
      else
        (let bs = min (int_or (batch_size request) 64) 64
         in case py_range 0 (int (length (texts request))) bs of
              Inl e \<Rightarrow> Inl e
            | Inr idx \<Rightarrow>
                (case embed_batches s (texts request) bs idx [] g of
                   Inl e \<Rightarrow> Inl e
                 | Inr (all_embeddings, g') \<Rightarrow>
                     Inr (\<lparr>embeddings = all_embeddings,
                           model_info =
                             \<lparr>info_model_name = ''BAAI/bge-m3'',
                              info_device = device s,
                              info_embedding_dim = 1024,
                              info_processing_time = time_end rt - time_start rt,
                              info_text_count = length (texts request)\<rparr>\<rparr>, g'))))"

text \<open>
  \<^verbatim>\<open>embed_texts\<close>: \<^verbatim>\<open>except Exception as e\<close> encloses the whole body, the two
  \<^verbatim>\<open>raise HTTPException(status_code=400, ...)\<close> included, and raises
  \<^verbatim>\<open>HTTPException(status_code=500, ...)\<close> for whatever it catches.
\<close>

definition embed_texts ::
  "runtime \<Rightarrow> server \<Rightarrow> EmbedRequest \<Rightarrow> rng \<Rightarrow> exn + (EmbedResponse \<times> rng)" where
  "embed_texts rt s request g =
     (case embed_texts_body rt s request g of
        Inr r \<Rightarrow> Inr r
      | Inl e \<Rightarrow> Inl (HTTPException 500 (''Embedding generation failed: '' @ str_of_exn rt e)))"

text \<open>
  The status code FastAPI answers with: 200 when the handler returns, the code of an
  \<^verbatim>\<open>HTTPException\<close> it raises, 500 for any other exception.
\<close>

definition http_status :: "exn + 'a \<Rightarrow> nat" where
  "http_status r =
     (case r of
        Inr _ \<Rightarrow> 200
      | Inl (HTTPException code _) \<Rightarrow> code
      | Inl _ \<Rightarrow> 500)"

subsection \<open>Properties of vectors and contracts of the environment\<close>

fun is_number :: "fnum \<Rightarrow> bool" where
  "is_number (Num x) = True"
| "is_number PosInf = False"
| "is_number NegInf = False"
| "is_number NaN = False"

fun num_val :: "fnum \<Rightarrow> real" where
  "num_val (Num x) = x"
| "num_val PosInf = 0"
| "num_val NegInf = 0"
| "num_val NaN = 0"

text \<open>A returned vector of unit norm: every entry is a number and the norm is 1.\<close>

definition unit_norm :: "fnum list \<Rightarrow> bool" where
  "unit_norm w = (list_all is_number w \<and> l2norm (map num_val w) = 1)"

definition all_zero :: "fnum list \<Rightarrow> bool" where
  "all_zero w = list_all (\<lambda>x. x = Num 0) w"

text \<open>
  The contract of the external model: when \<^verbatim>\<open>encode\<close> returns, it returns one dense
  vector of 1024 entries for each text.
\<close>

definition encoder_ok :: "encoder \<Rightarrow> bool" where
  "encoder_ok m =
     (\<forall>ts b vs. m ts b = Inr vs \<longrightarrow> length vs = length ts \<and> list_all (\<lambda>v. length v = 1024) vs)"

definition server_ok :: "server \<Rightarrow> bool" where
  "server_ok s = (case model s of None \<Rightarrow> True | Some m \<Rightarrow> encoder_ok m)"

text \<open>
  The contract of the generator: no 1024 successive samples are all 0, so that no sample
  of \<^verbatim>\<open>np.random.randn(1024)\<close> is the zero vector.
\<close>

definition rng_ok :: "rng \<Rightarrow> bool" where
  "rng_ok g = (\<forall>i. \<exists>j<1024. g (i + j) \<noteq> 0)"

text \<open>
  A normalised vector: no entry is \<open>nan\<close> or an infinity, that is, no division by zero
  has occurred, and the vector has unit norm or is the zero vector.
\<close>

definition normalized_vec :: "fnum list \<Rightarrow> bool" where
  "normalized_vec w = (list_all is_number w \<and> (unit_norm w \<or> all_zero w))"

text \<open>A vector as the service promises it: 1024 entries, of unit norm unless all zero.\<close>

definition good_vec :: "fnum list \<Rightarrow> bool" where
  "good_vec w = (length w = 1024 \<and> (unit_norm w \<or> all_zero w))"

subsection \<open>Example inputs\<close>

text \<open>
  A stub encoder embeds each text on its own, by \<open>f\<close>; a unit vector of 1024 entries; a
  server with a stub encoder loaded, one whose encoder raises and one with no model; a
  generator whose samples are all 1; Python's \<^verbatim>\<open>str\<close> of an exception, which for an
  \<^verbatim>\<open>HTTPException\<close> is the status code, a colon and the detail; a host with no cuda
  whose model does not load, and a host with cuda whose device name cannot be read.
\<close>

definition stub_encoder :: "(string \<Rightarrow> real list) \<Rightarrow> encoder" where
  "stub_encoder f ts b = Inr (map f ts)"

definition failing_encoder :: encoder where
  "failing_encoder ts b = Inl (RuntimeError ''CUDA out of memory'')"

definition unit_vec :: "real list" where
  "unit_vec = 1 # replicate 1023 0"

definition stub_server :: server where
  "stub_server = \<lparr>model = Some (stub_encoder (\<lambda>t. unit_vec)), device = Some ''cpu''\<rparr>"

definition failing_server :: server where
  "failing_server = \<lparr>model = Some failing_encoder, device = Some ''cpu''\<rparr>"

definition mock_server :: server where
  "mock_server = \<lparr>model = None, device = Some ''cpu''\<rparr>"

definition ones_rng :: rng where
  "ones_rng = (\<lambda>i. 1)"

definition digit_char :: "nat \<Rightarrow> char" where
  "digit_char d = ''0123456789'' ! (d mod 10)"

function show_nat :: "nat \<Rightarrow> string" where
  "show_nat n =
     (if n < 10 then [digit_char n] else show_nat (n div 10) @ [digit_char (n mod 10)])"
  by pat_completeness auto
termination
  by (relation "measure (\<lambda>n. n)") auto

definition exn_message :: "exn \<Rightarrow> string" where
  "exn_message e =
     (case e of
        HTTPException code detail \<Rightarrow> show_nat code @ '': '' @ detail
      | ValueError m \<Rightarrow> m
      | RuntimeError m \<Rightarrow> m)"

definition example_runtime :: runtime where
  "example_runtime = \<lparr>time_start = 0, time_end = 1, str_of_exn = exn_message\<rparr>"

definition no_model_host :: host where
  "no_model_host =
     \<lparr>cuda_is_available = False,
      cuda_get_device_name = Inl (RuntimeError ''no CUDA GPUs are available''),
      mps_is_available = True,
      BGEM3FlagModel = (\<lambda>name fp16. Inl (RuntimeError ''weights not found'')),
      model_cuda = Inr, model_to_mps = Inr\<rparr>"

definition broken_cuda_host :: host where
  "broken_cuda_host =
     \<lparr>cuda_is_available = True,
      cuda_get_device_name = Inl (RuntimeError ''CUDA unknown error''),
      mps_is_available = False,
      BGEM3FlagModel = (\<lambda>name fp16. Inr (stub_encoder (\<lambda>t. unit_vec))),
      model_cuda = Inr, model_to_mps = Inr\<rparr>"

section \<open>Lemmas\<close>

subsection \<open>Norms\<close>

lemma sum_sq_nonneg: "0 \<le> sum_list (map (\<lambda>x. x * x) (v::real list))"
  by (induction v) auto

lemma l2norm_nonneg: "0 \<le> l2norm v"
  by (simp add: l2norm_def sum_sq_nonneg)

lemma sum_sq_zero_iff: "sum_list (map (\<lambda>x. x * x) (v::real list)) = 0 \<longleftrightarrow> (\<forall>x\<in>set v. x = 0)"
proof (induction v)
  case Nil
  then show ?case by simp
next
  case (Cons a v)
  have "0 \<le> a * a" by simp
  with sum_sq_nonneg[of v] Cons show ?case
    by (auto simp: add_nonneg_eq_0_iff)
qed

lemma l2norm_zero_iff: "l2norm v = 0 \<longleftrightarrow> (\<forall>x\<in>set v. x = 0)"
  by (simp add: l2norm_def sum_sq_zero_iff)

lemma sum_sq_scale:
  "sum_list (map (\<lambda>x. x * x) (map (\<lambda>x. x / d) (v::real list))) = sum_list (map (\<lambda>x. x * x) v) / (d * d)"
  by (induction v) (auto simp: add_divide_distrib)

lemma l2norm_scale: "l2norm (map (\<lambda>x. x / d) v) = l2norm v / \<bar>d\<bar>"
  by (simp add: l2norm_def sum_sq_scale real_sqrt_divide del: map_map)

lemma l2norm_normalized: "l2norm v \<noteq> 0 \<Longrightarrow> l2norm (map (\<lambda>x. x / l2norm v) v) = 1"
  using l2norm_nonneg[of v] by (simp add: l2norm_scale)

lemma np_div_nonzero: "d \<noteq> 0 \<Longrightarrow> map (\<lambda>x. np_div x d) v = map Num (map (\<lambda>x. x / d) v)"
  by (simp add: np_div_def)

lemma num_val_map_Num: "map num_val (map Num v) = v"
  by (induction v) auto

lemma is_num_map_Num: "list_all is_number (map Num v)"
  by (induction v) auto

lemma unit_norm_div: "l2norm v \<noteq> 0 \<Longrightarrow> unit_norm (map (\<lambda>x. np_div x (l2norm v)) v)"
  unfolding unit_norm_def np_div_nonzero
  by (simp only: num_val_map_Num is_num_map_Num l2norm_normalized simp_thms)

lemma normalize_embedding_cases:
  "unit_norm (normalize_embedding v) \<or> (all_zero (normalize_embedding v) \<and> normalize_embedding v = map Num v)"
proof (cases "l2norm v = 0")
  case True
  then have "normalize_embedding v = map Num v"
    by (simp add: normalize_embedding_def)
  moreover from True have "all_zero (map Num v)"
    by (simp add: all_zero_def list_all_iff l2norm_zero_iff)
  ultimately show ?thesis by simp
next
  case False
  with l2norm_nonneg[of v] have "0 < l2norm v" by simp
  with unit_norm_div[OF False] show ?thesis
    by (simp add: normalize_embedding_def)
qed

lemma length_normalize_embedding: "length (normalize_embedding v) = length v"
  by (simp add: normalize_embedding_def Let_def)

subsection \<open>The mock embedder\<close>

lemma randn_fst: "fst (randn n g) = map g [0..<n]"
  by (simp add: randn_def)

lemma randn_snd: "snd (randn n g) = (\<lambda>i. g (i + n))"
  by (simp add: randn_def)

lemma rng_ok_shift: "rng_ok g \<Longrightarrow> rng_ok (\<lambda>i. g (i + n))"
  unfolding rng_ok_def
proof
  fix i
  assume a: "\<forall>i. \<exists>j<1024. g (i + j) \<noteq> 0"
  then obtain j where "j < 1024" "g ((i + n) + j) \<noteq> 0" by blast
  then show "\<exists>j<1024. g (i + j + n) \<noteq> 0"
    by (auto simp: add.commute add.left_commute)
qed

lemma rng_ok_sample: 
  assumes "rng_ok g"
  shows "l2norm (map g [0..<1024]) \<noteq> 0"
proof -
  from assms obtain j where j: "j < 1024" "g (0 + j) \<noteq> 0"
    unfolding rng_ok_def by blast
  then have "g j \<in> set (map g [0..<1024])" by auto
  with j show ?thesis
    unfolding l2norm_zero_iff by force
qed

lemma mock_Cons:
  "embed_texts_mock (t # ts) b g =
     (map (\<lambda>x. np_div x (l2norm (map g [0..<1024]))) (map g [0..<1024])
        # fst (embed_texts_mock ts b (\<lambda>i. g (i + 1024))),
      snd (embed_texts_mock ts b (\<lambda>i. g (i + 1024))))"
  by (simp add: randn_def split: prod.splits)

lemma mock_length: "length (fst (embed_texts_mock ts b g)) = length ts"
  by (induction ts arbitrary: g) (simp_all add: mock_Cons del: embed_texts_mock.simps(2))

lemma mock_vec_length: "list_all (\<lambda>w. length w = 1024) (fst (embed_texts_mock ts b g))"
  by (induction ts arbitrary: g) (simp_all add: mock_Cons del: embed_texts_mock.simps(2))

lemma mock_rng_ok: "rng_ok g \<Longrightarrow> rng_ok (snd (embed_texts_mock ts b g))"
proof (induction ts arbitrary: g)
  case Nil
  then show ?case by simp
next
  case (Cons t ts)
  from Cons.prems have "rng_ok (\<lambda>i. g (i + 1024))" by (rule rng_ok_shift)
  from Cons.IH[OF this] show ?case
    by (simp add: mock_Cons del: embed_texts_mock.simps(2))
qed

lemma mock_unit_norm: "rng_ok g \<Longrightarrow> list_all unit_norm (fst (embed_texts_mock ts b g))"
proof (induction ts arbitrary: g)
  case Nil
  then show ?case by simp
next
  case (Cons t ts)
  from Cons.prems have "rng_ok (\<lambda>i. g (i + 1024))" by (rule rng_ok_shift)
  from Cons.IH[OF this] unit_norm_div[OF rng_ok_sample[OF Cons.prems]] show ?case
    by (simp add: mock_Cons del: embed_texts_mock.simps(2) map_map)
qed

subsection \<open>The real embedder\<close>

lemma actual_returns: "\<exists>r. embed_texts_actual s ts b g = Inr r"
  by (simp add: embed_texts_actual_def split: sum.splits)

lemma actual_no_model:
  "model s = None \<Longrightarrow> embed_texts_actual s ts b g = Inr (embed_texts_mock ts b g)"
  by (simp add: embed_texts_actual_def embed_texts_actual_body_def)

lemma actual_raise:
  "model s = Some m \<Longrightarrow> m ts b = Inl e \<Longrightarrow>
   embed_texts_actual s ts b g = Inr (embed_texts_mock ts b g)"
  by (simp add: embed_texts_actual_def embed_texts_actual_body_def)

lemma actual_encode:
  "model s = Some m \<Longrightarrow> m ts b = Inr vs \<Longrightarrow>
   embed_texts_actual s ts b g = Inr (map normalize_embedding vs, g)"
  by (simp add: embed_texts_actual_def embed_texts_actual_body_def)

lemma mock_good: "rng_ok g \<Longrightarrow> list_all good_vec (fst (embed_texts_mock ts b g))"
  using mock_unit_norm[of g ts b] mock_vec_length[of ts b g]
  by (simp add: good_vec_def list_all_iff)

lemma actual_ok:
  assumes "server_ok s" "rng_ok g"
  shows "\<exists>vs g'. embed_texts_actual s ts b g = Inr (vs, g') \<and> length vs = length ts \<and>
           list_all good_vec vs \<and> rng_ok g'"
proof (cases "model s")
  case None
  obtain vs g' where m: "embed_texts_mock ts b g = (vs, g')" by (cases "embed_texts_mock ts b g")
  with mock_length[of ts b g] mock_good[OF assms(2), of ts b] mock_rng_ok[OF assms(2), of ts b]
    actual_no_model[OF None, of ts b g]
  show ?thesis by simp
next
  case (Some m)
  show ?thesis
  proof (cases "m ts b")
    case (Inl e)
    obtain vs g' where m: "embed_texts_mock ts b g = (vs, g')" by (cases "embed_texts_mock ts b g")
    with mock_length[of ts b g] mock_good[OF assms(2), of ts b] mock_rng_ok[OF assms(2), of ts b]
      actual_raise[OF Some Inl, of g]
    show ?thesis by simp
  next
    case (Inr vs)
    from assms(1) Some Inr have l: "length vs = length ts" "list_all (\<lambda>v. length v = 1024) vs"
      by (auto simp: server_ok_def encoder_ok_def)
    have "list_all good_vec (map normalize_embedding vs)"
      using l(2) normalize_embedding_cases
      by (auto simp: list_all_iff good_vec_def length_normalize_embedding)
    with actual_encode[OF Some Inr, of g] l(1) assms(2) show ?thesis by simp
  qed
qed

subsection \<open>Ranges and slices\<close>

lemma py_slice_nonneg:
  "0 \<le> i \<Longrightarrow> 0 \<le> j \<Longrightarrow> py_slice xs i j = drop (nat i) (take (nat j) xs)"
  by (simp add: py_slice_def slice_bound_def min_def)

lemma drop_take_append_drop:
  assumes "i \<le> j"
  shows "drop i (take j xs) @ drop j xs = drop i xs"
proof -
  have "drop i xs = drop i (take j xs @ drop j xs)" by simp
  also have "\<dots> = drop i (take j xs) @ drop (i - length (take j xs)) (drop j xs)"
    by (rule drop_append)
  also have "drop (i - length (take j xs)) (drop j xs) = drop j xs"
  proof (cases "j \<le> length xs")
    case True
    with assms show ?thesis by (simp add: min_def)
  next
    case False
    then show ?thesis by simp
  qed
  finally show ?thesis by simp
qed

lemma slices_concat:
  "0 < bs \<Longrightarrow> 0 \<le> i \<Longrightarrow>
   concat (map (\<lambda>k. py_slice xs k (k + bs)) (range_up i (int (length xs)) bs)) = drop (nat i) xs"
proof (induction i "int (length xs)" bs rule: range_up.induct)
  case (1 i step)
  show ?case
  proof (cases "i < int (length xs)")
    case True
    from 1 True have IH:
      "concat (map (\<lambda>k. py_slice xs k (k + step)) (range_up (i + step) (int (length xs)) step))
         = drop (nat (i + step)) xs"
      by simp
    have "range_up i (int (length xs)) step = i # range_up (i + step) (int (length xs)) step"
      using 1(2) True by (subst range_up.simps) simp
    moreover have "py_slice xs i (i + step) = drop (nat i) (take (nat (i + step)) xs)"
      using 1(2,3) by (simp add: py_slice_nonneg)
    moreover have "nat i \<le> nat (i + step)" using 1(2) by simp
    ultimately show ?thesis
      using IH by (simp add: drop_take_append_drop del: range_up.simps)
  next
    case False
    then have "range_up i (int (length xs)) step = []" by (subst range_up.simps) simp
    with False 1(3) show ?thesis by simp
  qed
qed

lemma range_down_empty: "stop \<ge> i \<Longrightarrow> range_down i stop step = []"
  by (subst range_down.simps) simp

subsection \<open>The loop over the batches\<close>

lemma batches_ok:
  assumes "server_ok s"
  shows "rng_ok g \<Longrightarrow> list_all good_vec acc \<Longrightarrow>
         \<exists>r g'. embed_batches s ts bs idx acc g = Inr (r, g') \<and>
           length r = length acc + length (concat (map (\<lambda>k. py_slice ts k (k + bs)) idx)) \<and>
           list_all good_vec r \<and> rng_ok g'"
proof (induction idx arbitrary: acc g)
  case Nil
  then show ?case by simp
next
  case (Cons i idx)
  from actual_ok[OF assms Cons.prems(1), of "py_slice ts i (i + bs)" bs]
  obtain vs g1 where a: "embed_texts_actual s (py_slice ts i (i + bs)) bs g = Inr (vs, g1)"
    and l: "length vs = length (py_slice ts i (i + bs))"
    and gv: "list_all good_vec vs" and ok: "rng_ok g1"
    by blast
  from Cons.prems(2) gv have "list_all good_vec (acc @ vs)" by simp
  from Cons.IH[OF ok this] obtain r g' where
    r: "embed_batches s ts bs idx (acc @ vs) g1 = Inr (r, g')"
    and lr: "length r = length (acc @ vs) + length (concat (map (\<lambda>k. py_slice ts k (k + bs)) idx))"
    and rest: "list_all good_vec r" "rng_ok g'"
    by blast
  from a r have "embed_batches s ts bs (i # idx) acc g = Inr (r, g')" by simp
  moreover from lr l have
    "length r = length acc + length (concat (map (\<lambda>k. py_slice ts k (k + bs)) (i # idx)))"
    by simp
  ultimately show ?case using rest by blast
qed

lemma batches_stub:
  assumes "model s = Some m" and "\<And>ts b. m ts b = Inr (map f ts)"
  shows "embed_batches s ts bs idx acc g =
           Inr (acc @ map (\<lambda>t. normalize_embedding (f t))
                        (concat (map (\<lambda>k. py_slice ts k (k + bs)) idx)), g)"
proof (induction idx arbitrary: acc)
  case Nil
  then show ?case by simp
next
  case (Cons i idx)
  have "embed_texts_actual s (py_slice ts i (i + bs)) bs g =
          Inr (map normalize_embedding (map f (py_slice ts i (i + bs))), g)"
    by (rule actual_encode[OF assms(1) assms(2)])
  with Cons.IH[of "acc @ map normalize_embedding (map f (py_slice ts i (i + bs)))"]
  show ?case by (simp add: comp_def)
qed

lemma effective_batch_positive:
  "\<forall>b. batch_size r = Some b \<longrightarrow> 0 < b \<Longrightarrow> 0 < min (int_or (batch_size r) 64) 64"
  by (cases "batch_size r") (auto simp: int_or_def)

lemma embed_texts_body_valid:
  assumes "texts r \<noteq> []" "length (texts r) \<le> 64" "0 < min (int_or (batch_size r) 64) 64"
  shows "embed_texts_body rt s r g =
    (case embed_batches s (texts r) (min (int_or (batch_size r) 64) 64)
            (range_up 0 (int (length (texts r))) (min (int_or (batch_size r) 64) 64)) [] g of
       Inl e \<Rightarrow> Inl e
     | Inr (all_embeddings, g') \<Rightarrow>
         Inr (\<lparr>embeddings = all_embeddings,
               model_info =
                 \<lparr>info_model_name = ''BAAI/bge-m3'',
                  info_device = device s,
                  info_embedding_dim = 1024,
                  info_processing_time = time_end rt - time_start rt,
                  info_text_count = length (texts r)\<rparr>\<rparr>, g'))"
proof -
  define bs where "bs = min (int_or (batch_size r) 64) 64"
  with assms(3) have "0 < bs" "bs \<noteq> 0" by simp_all
  then show ?thesis
    unfolding embed_texts_body_def py_range_def Let_def bs_def[symmetric]
    using assms(1,2) by (simp del: range_up.simps)
qed

lemma embed_valid_general:
  assumes "texts r \<noteq> []" and "length (texts r) \<le> 64"
    and "\<forall>b. batch_size r = Some b \<longrightarrow> 0 < b"
    and "server_ok s" and "rng_ok g"
  shows "\<exists>resp g'. embed_texts rt s r g = Inr (resp, g') \<and>
           length (embeddings resp) = length (texts r) \<and>
           list_all good_vec (embeddings resp)"
proof -
  let ?bs = "min (int_or (batch_size r) 64) 64"
  let ?idx = "range_up 0 (int (length (texts r))) ?bs"
  have bs: "0 < ?bs" using assms(3) by (rule effective_batch_positive)
  from batches_ok[OF assms(4) assms(5), of "[]" "texts r" ?bs ?idx]
  obtain v g' where b: "embed_batches s (texts r) ?bs ?idx [] g = Inr (v, g')"
    and l: "length v = length (concat (map (\<lambda>k. py_slice (texts r) k (k + ?bs)) ?idx))"
    and gv: "list_all good_vec v"
    by auto
  from slices_concat[OF bs, of 0 "texts r"] l have "length v = length (texts r)" by simp
  moreover have "embed_texts rt s r g =
     Inr (\<lparr>embeddings = v,
               model_info =
                 \<lparr>info_model_name = ''BAAI/bge-m3'',
                  info_device = device s,
                  info_embedding_dim = 1024,
                  info_processing_time = time_end rt - time_start rt,
                  info_text_count = length (texts r)\<rparr>\<rparr>, g')"
    unfolding embed_texts_def embed_texts_body_valid[OF assms(1,2) bs] b by simp
  ultimately show ?thesis using gv by simp
qed

lemma embed_valid_stub:
  assumes "texts r \<noteq> []" and "length (texts r) \<le> 64"
    and "\<forall>b. batch_size r = Some b \<longrightarrow> 0 < b"
    and "model s = Some m" and "\<And>ts b. m ts b = Inr (map f ts)"
  shows "\<exists>resp g'. embed_texts rt s r g = Inr (resp, g') \<and>
           embeddings resp = map (\<lambda>t. normalize_embedding (f t)) (texts r)"
proof -
  let ?bs = "min (int_or (batch_size r) 64) 64"
  let ?idx = "range_up 0 (int (length (texts r))) ?bs"
  have bs: "0 < ?bs" using assms(3) by (rule effective_batch_positive)
  have b: "embed_batches s (texts r) ?bs ?idx [] g =
      Inr ([] @ map (\<lambda>t. normalize_embedding (f t))
                        (concat (map (\<lambda>k. py_slice (texts r) k (k + ?bs)) ?idx)), g)"
    by (rule batches_stub[OF assms(4) assms(5)])
  have c: "concat (map (\<lambda>k. py_slice (texts r) k (k + ?bs)) ?idx) = texts r"
    using slices_concat[OF bs, of 0 "texts r"] by simp
  show ?thesis
    unfolding embed_texts_def embed_texts_body_valid[OF assms(1,2) bs] b c by simp
qed

subsection \<open>What the handler reads of a request\<close>

lemma embed_texts_body_cong:
  assumes "texts r = texts r'" and "int_or (batch_size r) 64 = int_or (batch_size r') 64"
  shows "embed_texts_body rt s r g = embed_texts_body rt s r' g"
  unfolding embed_texts_body_def assms ..

lemma embed_texts_cong:
  assumes "texts r = texts r'" and "int_or (batch_size r) 64 = int_or (batch_size r') 64"
  shows "embed_texts rt s r g = embed_texts rt s r' g"
  unfolding embed_texts_def embed_texts_body_cong[OF assms] ..

subsection \<open>The example inputs\<close>

lemma length_unit_vec: "length unit_vec = 1024"
  by (simp add: unit_vec_def)

lemma sum_sq_replicate_zero: "sum_list (map (\<lambda>x. x * x) (replicate n (0::real))) = 0"
  by (induction n) auto

lemma l2norm_unit_vec: "l2norm unit_vec = 1"
  using sum_sq_replicate_zero[of 1023]
  by (simp add: unit_vec_def l2norm_def del: map_replicate)

lemma encoder_ok_stub: "(\<And>t. length (f t) = 1024) \<Longrightarrow> encoder_ok (stub_encoder f)"
  by (auto simp: encoder_ok_def stub_encoder_def list_all_iff)

lemma server_ok_stub_server: "server_ok stub_server"
  by (simp add: server_ok_def stub_server_def encoder_ok_stub length_unit_vec)

lemma server_ok_mock_server: "server_ok mock_server"
  by (simp add: server_ok_def mock_server_def)

lemma rng_ok_ones_rng: "rng_ok ones_rng"
  unfolding rng_ok_def ones_rng_def by (intro allI exI[of _ 0]) simp

lemma exn_message_HTTPException_400:
  "exn_message (HTTPException 400 d) = ''400: '' @ d"
proof -
  have "show_nat 400 = ''400''"
    by (subst show_nat.simps, subst show_nat.simps, subst show_nat.simps)
       (simp add: digit_char_def)
  then show ?thesis by (simp add: exn_message_def)
qed

subsection \<open>Normalised vectors\<close>

lemma unit_norm_is_number: "unit_norm w \<Longrightarrow> list_all is_number w"
  by (simp add: unit_norm_def)

lemma all_zero_is_number: "all_zero w \<Longrightarrow> list_all is_number w"
  by (auto simp: all_zero_def list_all_iff)

lemma unit_norm_normalized: "unit_norm w \<Longrightarrow> normalized_vec w"
  by (simp add: normalized_vec_def unit_norm_is_number)

lemma mock_normalized:
  "rng_ok g \<Longrightarrow> list_all normalized_vec (fst (embed_texts_mock ts b g))"
  using mock_unit_norm[of g ts b]
  by (auto simp: list_all_iff intro: unit_norm_normalized)

lemma normalize_embedding_normalized: "normalized_vec (normalize_embedding v)"
  using normalize_embedding_cases[of v]
  by (auto simp: normalized_vec_def unit_norm_is_number all_zero_is_number)

lemma actual_normalized:
  assumes "rng_ok g"
  shows "\<exists>ws g'. embed_texts_actual s ts b g = Inr (ws, g') \<and>
           list_all normalized_vec ws \<and> rng_ok g'"
proof (cases "model s")
  case None
  obtain ws g' where m: "embed_texts_mock ts b g = (ws, g')"
    by (cases "embed_texts_mock ts b g")
  with mock_normalized[OF assms, of ts b] mock_rng_ok[OF assms, of ts b]
    actual_no_model[OF None, of ts b g]
  show ?thesis by simp
next
  case (Some m)
  show ?thesis
  proof (cases "m ts b")
    case (Inl e)
    obtain ws g' where m: "embed_texts_mock ts b g = (ws, g')"
      by (cases "embed_texts_mock ts b g")
    with mock_normalized[OF assms, of ts b] mock_rng_ok[OF assms, of ts b]
      actual_raise[OF Some Inl, of g]
    show ?thesis by simp
  next
    case (Inr vs)
    have "list_all normalized_vec (map normalize_embedding vs)"
      by (simp add: list_all_iff normalize_embedding_normalized)
    with actual_encode[OF Some Inr, of g] assms show ?thesis by simp
  qed
qed

lemma batches_normalized:
  "rng_ok g \<Longrightarrow> list_all normalized_vec acc \<Longrightarrow>
   \<exists>r g'. embed_batches s ts bs idx acc g = Inr (r, g') \<and> list_all normalized_vec r"
proof (induction idx arbitrary: acc g)
  case Nil
  then show ?case by simp
next
  case (Cons i idx)
  from actual_normalized[OF Cons.prems(1), of s "py_slice ts i (i + bs)" bs]
  obtain ws g1 where a: "embed_texts_actual s (py_slice ts i (i + bs)) bs g = Inr (ws, g1)"
    and n: "list_all normalized_vec ws" and ok: "rng_ok g1"
    by blast
  from Cons.prems(2) n have "list_all normalized_vec (acc @ ws)" by simp
  from Cons.IH[OF ok this] a show ?case by simp
qed

lemma embed_texts_normalized:
  assumes "rng_ok g" and "embed_texts rt s r g = Inr (resp, g')"
  shows "list_all normalized_vec (embeddings resp)"
proof -
  from assms(2) obtain idx where
    b: "embed_batches s (texts r) (min (int_or (batch_size r) 64) 64) idx [] g =
          Inr (embeddings resp, g')"
    by (auto simp: embed_texts_def embed_texts_body_def Let_def
        split: sum.splits if_splits prod.splits)
  from batches_normalized[OF assms(1), of "[]" s "texts r" "min (int_or (batch_size r) 64) 64" idx] b
  show ?thesis by simp
qed

section \<open>The claims\<close>

subsection \<open>C1: one unit vector of 1024 entries for each text, in order\<close>

text \<open>
  C1: for a non-empty list of at most 64 texts and a positive batch size, the embed
  operation returns one vector for each text, each of 1024 entries and of unit L2 norm
  unless all zero, in the order of the texts. The encoder and the generator are outside
  the program: the encoder is taken to return one vector of 1024 entries for each text
  when it returns (\<open>server_ok\<close>), and the generator never to return 1024 zeros in a row
  (\<open>rng_ok\<close>). The order shows with an encoder that embeds each text on its own, by \<open>f\<close>:
  the answer is then \<open>f\<close>, normalised, mapped over the texts.
\<close>

theorem C1_embed_one_vector_per_text:
  assumes "texts r \<noteq> []" and "length (texts r) \<le> 64"
    and "\<forall>b. batch_size r = Some b \<longrightarrow> 0 < b"
    and "server_ok s" and "rng_ok g"
  shows "\<exists>resp g'. embed_texts rt s r g = Inr (resp, g') \<and>
           length (embeddings resp) = length (texts r) \<and>
           list_all good_vec (embeddings resp) \<and>
           (\<forall>m f. model s = Some m \<and> (\<forall>ts b. m ts b = Inr (map f ts)) \<longrightarrow>
              embeddings resp = map (\<lambda>t. normalize_embedding (f t)) (texts r))"
proof -
  from embed_valid_general[OF assms, of rt]
  obtain resp g' where e: "embed_texts rt s r g = Inr (resp, g')"
    and l: "length (embeddings resp) = length (texts r)"
    and gv: "list_all good_vec (embeddings resp)"
    by blast
  have "embeddings resp = map (\<lambda>t. normalize_embedding (f t)) (texts r)"
    if "model s = Some m" and "\<forall>ts b. m ts b = Inr (map f ts)" for m f
  proof -
    from that(2) have "\<And>ts b. m ts b = Inr (map f ts)" by simp
    from embed_valid_stub[OF assms(1-3) that(1) this, of rt g] e show ?thesis by auto
  qed
  with e l gv show ?thesis by blast
qed

theorem C1_embed_one_vector_per_text_witness:
  "server_ok stub_server \<and> rng_ok ones_rng \<and>
   (\<exists>resp g'.
      embed_texts example_runtime stub_server
        \<lparr>texts = [''a'', ''b''], batch_size = Some 1, normalize = Some True\<rparr> ones_rng =
        Inr (resp, g') \<and>
      length (embeddings resp) = 2 \<and>
      list_all good_vec (embeddings resp) \<and>
      embeddings resp = [normalize_embedding unit_vec, normalize_embedding unit_vec])"
proof -
  let ?r = "\<lparr>texts = [''a'', ''b''], batch_size = Some 1, normalize = Some True\<rparr>"
  have h1: "texts ?r \<noteq> []" and h2: "length (texts ?r) \<le> 64"
    and h3: "\<forall>b. batch_size ?r = Some b \<longrightarrow> 0 < b"
    by simp_all
  from C1_embed_one_vector_per_text
    [OF h1 h2 h3 server_ok_stub_server rng_ok_ones_rng, of example_runtime]
  obtain resp g' where e: "embed_texts example_runtime stub_server ?r ones_rng = Inr (resp, g')"
    and l: "length (embeddings resp) = length (texts ?r)"
    and gv: "list_all good_vec (embeddings resp)"
    and st: "\<forall>m f. model stub_server = Some m \<and> (\<forall>ts b. m ts b = Inr (map f ts)) \<longrightarrow>
              embeddings resp = map (\<lambda>t. normalize_embedding (f t)) (texts ?r)"
    by blast
  have "model stub_server = Some (stub_encoder (\<lambda>t. unit_vec)) \<and>
        (\<forall>ts b. stub_encoder (\<lambda>t. unit_vec) ts b = Inr (map (\<lambda>t. unit_vec) ts))"
    by (simp add: stub_server_def stub_encoder_def)
  with st have "embeddings resp = map (\<lambda>t. normalize_embedding unit_vec) (texts ?r)"
    by blast
  with e l gv server_ok_stub_server rng_ok_ones_rng show ?thesis by simp
qed

subsection \<open>C2: invalid input\<close>

text \<open>
  C2 says that \<^verbatim>\<open>/embed\<close> answers 400 when \<open>texts\<close> is empty or has more than 64
  entries. The handler raises \<^verbatim>\<open>HTTPException(status_code=400, ...)\<close> inside its own
  \<^verbatim>\<open>try\<close>, and \<^verbatim>\<open>except Exception\<close> catches it and raises status 500: with no
  texts and with 65 texts the answer is 500, and no request at all is answered 400.
\<close>

theorem C2_invalid_input_is_500:
  "embed_texts rt s \<lparr>texts = [], batch_size = b, normalize = n\<rparr> g =
     Inl (HTTPException 500
       (''Embedding generation failed: '' @ str_of_exn rt (HTTPException 400 ''No texts provided''))) \<and>
   embed_texts rt s \<lparr>texts = replicate 65 ''x'', batch_size = b, normalize = n\<rparr> g =
     Inl (HTTPException 500
       (''Embedding generation failed: '' @
          str_of_exn rt (HTTPException 400 ''Too many texts. Maximum allowed: 64''))) \<and>
   http_status (embed_texts rt s r g) \<noteq> 400"
  by (simp add: embed_texts_def embed_texts_body_def http_status_def split: sum.splits)

subsection \<open>C3: an unavailable model is never an error\<close>

text \<open>
  C3: \<open>load_model\<close> returns a boolean and never raises: \<open>False\<close> when the selection of
  the device, the constructor of the model or the move to the device raises, \<open>True\<close>
  otherwise. \<open>embed_texts_actual\<close> always returns and never raises: with no model loaded,
  and when the call of the model raises, it returns what the mock embedder returns for
  the same texts.
\<close>

theorem C3_model_unavailable_absorbed:
  "load_model h s = Inr (fst (load_model_body h s) = None, snd (load_model_body h s)) \<and>
   (\<forall>e. detect_device h = Inl e \<longrightarrow> load_model h s = Inr (False, s)) \<and>
   (\<forall>d e. detect_device h = Inr d \<and>
      BGEM3FlagModel h ''BAAI/bge-m3'' (d \<noteq> ''cpu'') = Inl e \<longrightarrow>
      load_model h s = Inr (False, s\<lparr>device := Some d\<rparr>)) \<and>
   (\<forall>d m e. detect_device h = Inr d \<and>
      BGEM3FlagModel h ''BAAI/bge-m3'' (d \<noteq> ''cpu'') = Inr m \<and>
      ((d = ''cuda'' \<and> model_cuda h m = Inl e) \<or>
       (d = ''mps'' \<and> model_to_mps h m = Inl e)) \<longrightarrow>
      load_model h s = Inr (False, s\<lparr>device := Some d, model := Some m\<rparr>)) \<and>
   (\<exists>vs g'. embed_texts_actual s ts b g = Inr (vs, g')) \<and>
   (model s = None \<longrightarrow> embed_texts_actual s ts b g = Inr (embed_texts_mock ts b g)) \<and>
   (\<forall>m e. model s = Some m \<and> m ts b = Inl e \<longrightarrow>
      embed_texts_actual s ts b g = Inr (embed_texts_mock ts b g))"
proof (intro conjI allI impI)
  show "load_model h s = Inr (fst (load_model_body h s) = None, snd (load_model_body h s))"
    by (cases "load_model_body h s") (auto simp: load_model_def split: option.splits)
next
  fix e
  assume "detect_device h = Inl e"
  then show "load_model h s = Inr (False, s)"
    by (simp add: load_model_def load_model_body_def)
next
  fix d e
  assume "detect_device h = Inr d \<and> BGEM3FlagModel h ''BAAI/bge-m3'' (d \<noteq> ''cpu'') = Inl e"
  then show "load_model h s = Inr (False, s\<lparr>device := Some d\<rparr>)"
    by (simp add: load_model_def load_model_body_def Let_def)
next
  fix d m e
  assume "detect_device h = Inr d \<and>
      BGEM3FlagModel h ''BAAI/bge-m3'' (d \<noteq> ''cpu'') = Inr m \<and>
      ((d = ''cuda'' \<and> model_cuda h m = Inl e) \<or>
       (d = ''mps'' \<and> model_to_mps h m = Inl e))"
  then show "load_model h s = Inr (False, s\<lparr>device := Some d, model := Some m\<rparr>)"
    by (auto simp: load_model_def load_model_body_def Let_def)
next
  from actual_returns[of s ts b g] show "\<exists>vs g'. embed_texts_actual s ts b g = Inr (vs, g')"
    by auto
next
  assume "model s = None"
  then show "embed_texts_actual s ts b g = Inr (embed_texts_mock ts b g)"
    by (rule actual_no_model)
next
  fix m e
  assume "model s = Some m \<and> m ts b = Inl e"
  then show "embed_texts_actual s ts b g = Inr (embed_texts_mock ts b g)"
    by (auto intro: actual_raise)
qed

theorem C3_model_unavailable_absorbed_witness:
  "load_model no_model_host mock_server = Inr (False, mock_server\<lparr>device := Some ''mps''\<rparr>) \<and>
   load_model broken_cuda_host mock_server = Inr (False, mock_server) \<and>
   embed_texts_actual mock_server [''a''] 64 ones_rng = Inr (embed_texts_mock [''a''] 64 ones_rng) \<and>
   embed_texts_actual failing_server [''a''] 64 ones_rng = Inr (embed_texts_mock [''a''] 64 ones_rng)"
proof -
  have d: "detect_device no_model_host = Inr ''mps''"
    by (simp add: detect_device_def no_model_host_def)
  have c: "BGEM3FlagModel no_model_host ''BAAI/bge-m3'' (''mps'' \<noteq> ''cpu'') =
             Inl (RuntimeError ''weights not found'')"
    by (simp add: no_model_host_def)
  have n: "model mock_server = None" by (simp add: mock_server_def)
  have f: "model failing_server = Some failing_encoder \<and>
           failing_encoder [''a''] 64 = Inl (RuntimeError ''CUDA out of memory'')"
    by (simp add: failing_server_def failing_encoder_def)
  have x: "detect_device broken_cuda_host = Inl (RuntimeError ''CUDA unknown error'')"
    by (simp add: detect_device_def broken_cuda_host_def)
  from C3_model_unavailable_absorbed[of no_model_host mock_server "[''a'']" 64 ones_rng]
    c d n
  have 1: "load_model no_model_host mock_server = Inr (False, mock_server\<lparr>device := Some ''mps''\<rparr>)"
    and 2: "embed_texts_actual mock_server [''a''] 64 ones_rng = Inr (embed_texts_mock [''a''] 64 ones_rng)"
    by blast+
  from C3_model_unavailable_absorbed[of broken_cuda_host mock_server "[''a'']" 64 ones_rng] x
  have 3: "load_model broken_cuda_host mock_server = Inr (False, mock_server)"
    by blast
  from C3_model_unavailable_absorbed[of no_model_host failing_server "[''a'']" 64 ones_rng]
    f
  have "embed_texts_actual failing_server [''a''] 64 ones_rng = Inr (embed_texts_mock [''a''] 64 ones_rng)"
    by blast
  with 1 2 3 show ?thesis by simp
qed

subsection \<open>C4: every returned vector is normalised\<close>

text \<open>
  C4: every vector the service returns is normalised to unit L2 norm, whether it comes
  from the real model or from the mock embedder; normalisation is skipped only for a
  vector whose norm is exactly zero, which is returned unchanged, and no division by zero
  occurs. The generator is outside the program and is taken under its contract \<open>rng_ok\<close>,
  as for C1: no sample of \<^verbatim>\<open>np.random.randn(1024)\<close> is all zero. The real model's
  vectors pass through \<open>normalize_embedding\<close>, which divides by a positive norm and returns
  a vector of norm zero as it is; the mock embedder divides each sample by its norm, which
  under the contract is not zero.
\<close>

theorem C4_every_vector_normalized:
  assumes "rng_ok g"
  shows "(\<exists>ws g'. embed_texts_actual s ts b g = Inr (ws, g') \<and>
            list_all normalized_vec ws) \<and>
         (\<forall>resp g'. embed_texts rt s r g = Inr (resp, g') \<longrightarrow>
            list_all normalized_vec (embeddings resp)) \<and>
         (\<forall>m vs. model s = Some m \<and> m ts b = Inr vs \<longrightarrow>
            embed_texts_actual s ts b g = Inr (map normalize_embedding vs, g)) \<and>
         (0 < l2norm v \<longrightarrow>
            normalize_embedding v = map (\<lambda>x. Num (x / l2norm v)) v \<and>
            unit_norm (normalize_embedding v)) \<and>
         (l2norm v = 0 \<longrightarrow>
            normalize_embedding v = map Num v \<and> all_zero (normalize_embedding v)) \<and>
         (model s = None \<or> (\<exists>m e. model s = Some m \<and> m ts b = Inl e) \<longrightarrow>
            embed_texts_actual s ts b g = Inr (embed_texts_mock ts b g) \<and>
            list_all unit_norm (fst (embed_texts_mock ts b g)))"
proof (intro conjI allI impI)
  from actual_normalized[OF assms, of s ts b]
  show "\<exists>ws g'. embed_texts_actual s ts b g = Inr (ws, g') \<and> list_all normalized_vec ws"
    by blast
next
  fix resp g'
  assume "embed_texts rt s r g = Inr (resp, g')"
  with assms show "list_all normalized_vec (embeddings resp)"
    by (rule embed_texts_normalized)
next
  fix m vs
  assume "model s = Some m \<and> m ts b = Inr vs"
  then show "embed_texts_actual s ts b g = Inr (map normalize_embedding vs, g)"
    by (auto intro: actual_encode)
next
  assume p: "0 < l2norm v"
  then show "normalize_embedding v = map (\<lambda>x. Num (x / l2norm v)) v"
    by (simp add: normalize_embedding_def np_div_def)
  from p unit_norm_div[of v] show "unit_norm (normalize_embedding v)"
    by (simp add: normalize_embedding_def)
next
  assume z: "l2norm v = 0"
  then show e: "normalize_embedding v = map Num v"
    by (simp add: normalize_embedding_def)
  from z have "all_zero (map Num v)"
    by (simp add: all_zero_def list_all_iff l2norm_zero_iff)
  with e show "all_zero (normalize_embedding v)" by simp
next
  assume "model s = None \<or> (\<exists>m e. model s = Some m \<and> m ts b = Inl e)"
  then show "embed_texts_actual s ts b g = Inr (embed_texts_mock ts b g)"
    by (auto intro: actual_no_model actual_raise)
next
  from assms show "list_all unit_norm (fst (embed_texts_mock ts b g))"
    by (rule mock_unit_norm)
qed

theorem C4_every_vector_normalized_witness:
  "rng_ok ones_rng \<and>
   embed_texts_actual stub_server [''a''] 64 ones_rng =
     Inr ([normalize_embedding unit_vec], ones_rng) \<and>
   unit_norm (normalize_embedding unit_vec) \<and>
   normalize_embedding [0, 0] = [Num 0, Num 0] \<and>
   embed_texts_actual mock_server [''a''] 64 ones_rng =
     Inr (embed_texts_mock [''a''] 64 ones_rng) \<and>
   list_all unit_norm (fst (embed_texts_mock [''a''] 64 ones_rng)) \<and>
   (\<exists>ws g'. embed_texts_actual failing_server [''a'', ''b''] 64 ones_rng = Inr (ws, g') \<and>
      list_all normalized_vec ws)"
proof -
  have m: "model stub_server = Some (stub_encoder (\<lambda>t. unit_vec)) \<and>
           stub_encoder (\<lambda>t. unit_vec) [''a''] 64 = Inr [unit_vec]"
    by (simp add: stub_server_def stub_encoder_def)
  have p: "0 < l2norm unit_vec" by (simp add: l2norm_unit_vec)
  from C4_every_vector_normalized
    [OF rng_ok_ones_rng, of stub_server "[''a'']" 64 example_runtime
      "\<lparr>texts = [''a''], batch_size = Some 64, normalize = Some True\<rparr>" unit_vec] m p
  have 1: "embed_texts_actual stub_server [''a''] 64 ones_rng =
             Inr ([normalize_embedding unit_vec], ones_rng)"
    and 2: "unit_norm (normalize_embedding unit_vec)"
    by auto
  have z: "l2norm [0, 0] = 0" by (simp add: l2norm_def)
  have n: "model mock_server = None" by (simp add: mock_server_def)
  from C4_every_vector_normalized
    [OF rng_ok_ones_rng, of mock_server "[''a'']" 64 example_runtime
      "\<lparr>texts = [''a''], batch_size = Some 64, normalize = Some True\<rparr>" "[0, 0]"] z n
  have 3: "normalize_embedding [0, 0] = [Num 0, Num 0]"
    and 4: "embed_texts_actual mock_server [''a''] 64 ones_rng =
              Inr (embed_texts_mock [''a''] 64 ones_rng)"
    and 5: "list_all unit_norm (fst (embed_texts_mock [''a''] 64 ones_rng))"
    by auto
  from C4_every_vector_normalized
    [OF rng_ok_ones_rng, of failing_server "[''a'', ''b'']" 64 example_runtime
      "\<lparr>texts = [''a''], batch_size = Some 64, normalize = Some True\<rparr>" unit_vec]
  have 6: "\<exists>ws g'. embed_texts_actual failing_server [''a'', ''b''] 64 ones_rng = Inr (ws, g') \<and>
      list_all normalized_vec ws"
    by blast
  from 1 2 3 4 5 6 rng_ok_ones_rng show ?thesis by blast
qed

subsection \<open>C5: health\<close>

text \<open>
  C5: the health operation never fails and is answered with status 200; with no model
  loaded it reports \<open>healthy_mock\<close> and \<open>model_loaded = False\<close>, with a model loaded
  \<open>healthy\<close> and \<open>model_loaded = True\<close>.
\<close>

theorem C5_health:
  "\<exists>resp. health_check s = Inr resp \<and> http_status (health_check s) = 200 \<and>
     (model s = None \<longrightarrow> status resp = ''healthy_mock'' \<and> model_loaded resp = False) \<and>
     (model s \<noteq> None \<longrightarrow> status resp = ''healthy'' \<and> model_loaded resp = True)"
  by (simp add: health_check_def http_status_def Let_def)

theorem C5_health_witness:
  "\<exists>resp. health_check mock_server = Inr resp \<and> http_status (health_check mock_server) = 200 \<and>
      status resp = ''healthy_mock'' \<and> model_loaded resp = False"
proof -
  have "model mock_server = None" by (simp add: mock_server_def)
  with C5_health[of mock_server] show ?thesis by blast
qed

subsection \<open>C6: the device selector\<close>

text \<open>
  C6 says that the device selector always returns one of the three tags and has no
  failure path. On the cuda branch it reads the name of the device for its log line
  before it returns, and an exception of that query leaves the function: on a host
  where cuda is available and the name cannot be read, no tag is returned.
\<close>

theorem C6_device_name_query_counterexample:
  "cuda_is_available broken_cuda_host \<and>
   detect_device broken_cuda_host = Inl (RuntimeError ''CUDA unknown error'')"
  by (simp add: detect_device_def broken_cuda_host_def)

text \<open>
  C6, amended: the device selector reads only the host and prefers cuda to mps to cpu.
  When it returns, it returns one of the three tags \<open>cuda\<close>, \<open>mps\<close>, \<open>cpu\<close>. Where cuda is
  not available it always returns, \<open>mps\<close> if that is available and \<open>cpu\<close> as the final
  fallback. Where cuda is available it returns \<open>cuda\<close>, unless the query of the device
  name made for the log line raises, which is its one failure path.
\<close>

theorem C6_detect_device:
  "(\<forall>d. detect_device h = Inr d \<longrightarrow> d = ''cuda'' \<or> d = ''mps'' \<or> d = ''cpu'') \<and>
   (cuda_is_available h \<longrightarrow>
      detect_device h =
        (case cuda_get_device_name h of Inl e \<Rightarrow> Inl e | Inr name \<Rightarrow> Inr ''cuda'')) \<and>
   (\<not> cuda_is_available h \<and> mps_is_available h \<longrightarrow> detect_device h = Inr ''mps'') \<and>
   (\<not> cuda_is_available h \<and> \<not> mps_is_available h \<longrightarrow> detect_device h = Inr ''cpu'') \<and>
   (\<forall>e. detect_device h = Inl e \<longrightarrow> cuda_is_available h \<and> cuda_get_device_name h = Inl e)"
  by (auto simp: detect_device_def split: sum.splits if_splits)

theorem C6_detect_device_witness:
  "cuda_is_available no_model_host = False \<and> mps_is_available no_model_host = True \<and>
   detect_device no_model_host = Inr ''mps''"
proof -
  have h: "\<not> cuda_is_available no_model_host \<and> mps_is_available no_model_host"
    by (simp add: no_model_host_def)
  with C6_detect_device[of no_model_host] have "detect_device no_model_host = Inr ''mps''"
    by blast
  with h show ?thesis by simp
qed

subsection \<open>C7: normalisation of a unit vector\<close>

text \<open>
  C7: the normalisation step of the service (divide by the L2 norm when the norm is
  positive) leaves a vector of unit L2 norm unchanged.
\<close>

theorem C7_normalize_unit: "l2norm v = 1 \<Longrightarrow> normalize_embedding v = map Num v"
  by (simp add: normalize_embedding_def np_div_def)

theorem C7_normalize_unit_witness:
  "l2norm [3 / 5, 4 / 5] = 1 \<and> normalize_embedding [3 / 5, 4 / 5] = [Num (3 / 5), Num (4 / 5)]"
proof -
  have h: "l2norm [3 / 5, 4 / 5] = 1" by (simp add: l2norm_def)
  from C7_normalize_unit[OF h] h show ?thesis by simp
qed

subsection \<open>C8: the normalize flag\<close>

text \<open>
  C8: the answer of the embed operation does not depend on the \<open>normalize\<close> flag of the
  request: two requests that differ only in it get the same answer, for the same server,
  clock, encoder and generator.
\<close>

theorem C8_normalize_flag_ignored:
  "embed_texts rt s (r\<lparr>normalize := a\<rparr>) g = embed_texts rt s (r\<lparr>normalize := b\<rparr>) g"
  by (rule embed_texts_cong) simp_all

subsection \<open>C9: a negative batch size\<close>

text \<open>
  C9: for a non-empty list of at most 64 texts and a negative requested batch size, the
  embed operation succeeds (status 200) with an empty \<open>embeddings\<close> sequence: the loop over
  the batches runs zero times.
\<close>

theorem C9_negative_batch_size:
  assumes "texts r \<noteq> []" and "length (texts r) \<le> 64"
    and "batch_size r = Some b" and "b < 0"
  shows "embed_texts rt s r g =
           Inr (\<lparr>embeddings = [],
                 model_info =
                   \<lparr>info_model_name = ''BAAI/bge-m3'',
                    info_device = device s,
                    info_embedding_dim = 1024,
                    info_processing_time = time_end rt - time_start rt,
                    info_text_count = length (texts r)\<rparr>\<rparr>, g) \<and>
         http_status (embed_texts rt s r g) = 200"
proof -
  from assms(3,4) have bs: "min (int_or (batch_size r) 64) 64 = b"
    by (simp add: int_or_def)
  have "range_down 0 (int (length (texts r))) b = []"
    by (rule range_down_empty) simp
  with assms bs show ?thesis
    by (simp add: embed_texts_def embed_texts_body_def py_range_def http_status_def
        del: range_down.simps range_up.simps)
qed

theorem C9_negative_batch_size_witness:
  "embed_texts example_runtime mock_server
      \<lparr>texts = [''a'', ''b''], batch_size = Some (- 1), normalize = Some True\<rparr> ones_rng =
     Inr (\<lparr>embeddings = [],
           model_info =
             \<lparr>info_model_name = ''BAAI/bge-m3'',
              info_device = Some ''cpu'',
              info_embedding_dim = 1024,
              info_processing_time = 1,
              info_text_count = 2\<rparr>\<rparr>, ones_rng)"
  using C9_negative_batch_size
    [of "\<lparr>texts = [''a'', ''b''], batch_size = Some (- 1), normalize = Some True\<rparr>" "- 1"
      example_runtime mock_server ones_rng]
  by (simp add: example_runtime_def mock_server_def)

subsection \<open>C10: a batch size of 0\<close>

text \<open>
  C10: a requested batch size of 0 is replaced by the default 64, not clamped to 0: a
  request with \<open>batch_size = 0\<close> is answered as the same request with \<open>batch_size\<close>
  omitted, the effective batch size being \<open>min (batch_size or 64) 64\<close>.
\<close>

theorem C10_batch_size_zero:
  "embed_texts rt s (parse_EmbedRequest ts (Value 0) n) g =
     embed_texts rt s (parse_EmbedRequest ts Absent n) g \<and>
   min (int_or (batch_size (parse_EmbedRequest ts (Value 0) n)) 64) 64 = 64"
proof
  show "embed_texts rt s (parse_EmbedRequest ts (Value 0) n) g =
     embed_texts rt s (parse_EmbedRequest ts Absent n) g"
    by (rule embed_texts_cong)
      (simp_all add: parse_EmbedRequest_def field_default_def int_or_def)
  show "min (int_or (batch_size (parse_EmbedRequest ts (Value 0) n)) 64) 64 = 64"
    by (simp add: parse_EmbedRequest_def field_default_def int_or_def)
qed

end
